theory Spec2Isabelle
  imports Complex_Main "HOL-Library.Sublist"
begin

section \<open>JavaScript values and strings\<close>

text \<open>
  Strings are lists of characters. The whitespace that \<open>String.prototype.trim\<close> and
  the regular-expression class \<open>\s\<close> recognise is, among the characters below 256,
  TAB, LF, VT, FF, CR, SPACE and NBSP.
\<close>

definition is_space :: "char \<Rightarrow> bool" where
  "is_space c = (of_char c \<in> {9, 10, 11, 12, 13, 32, 160 :: nat})"

definition trim :: "string \<Rightarrow> string" where
  "trim s = rev (dropWhile is_space (rev (dropWhile is_space s)))"

definition lower_char :: "char \<Rightarrow> char" where
  "lower_char c =
     (let n = (of_char c :: nat)
      in if (65 \<le> n \<and> n \<le> 90) \<or> (192 \<le> n \<and> n \<le> 222 \<and> n \<noteq> 215)
         then char_of (n + 32) else c)"

definition toLowerCase :: "string \<Rightarrow> string" where
  "toLowerCase s = map lower_char s"

definition startsWith :: "string \<Rightarrow> string \<Rightarrow> bool" where
  "startsWith s p = (take (length p) s = p)"

fun str_includes :: "string \<Rightarrow> string \<Rightarrow> bool" where
  "str_includes [] p = (p = [])"
| "str_includes (c # cs) p = (startsWith (c # cs) p \<or> str_includes cs p)"

fun join :: "string \<Rightarrow> string list \<Rightarrow> string" where
  "join sep [] = []"
| "join sep [x] = x"
| "join sep (x # y # ys) = x @ sep @ join sep (y # ys)"

text \<open>
  A value produced by \<open>JSON.parse\<close>. An object is the list of its own properties; a
  property that is absent reads as \<open>undefined\<close>, which is \<open>None\<close> here.
\<close>

datatype json =
    JNull
  | JBool bool
  | JNum rat
  | JStr string
  | JArr "json list"
  | JObj "(string \<times> json) list"

type_synonym jsobject = "(string \<times> json) list"

definition field :: "jsobject \<Rightarrow> string \<Rightarrow> json option" where
  "field obj k = map_of obj k"

text \<open>JavaScript truthiness of a value, and of a property that may be undefined.\<close>

fun truthy :: "json \<Rightarrow> bool" where
  "truthy JNull = False"
| "truthy (JBool b) = b"
| "truthy (JNum n) = (n \<noteq> 0)"
| "truthy (JStr s) = (s \<noteq> [])"
| "truthy (JArr _) = True"
| "truthy (JObj _) = True"

definition truthy_field :: "jsobject \<Rightarrow> string \<Rightarrow> bool" where
  "truthy_field obj k = (case field obj k of None \<Rightarrow> False | Some v \<Rightarrow> truthy v)"

text \<open>The nullish coalescing operator \<open>a ?? b\<close>.\<close>

definition nullish :: "json option \<Rightarrow> json option \<Rightarrow> json option" where
  "nullish a b = (case a of None \<Rightarrow> b | Some JNull \<Rightarrow> b | Some v \<Rightarrow> Some v)"

text \<open>
  The services of the runtime and of the \<open>html-entities\<close> package that the parsers call:
  \<open>decode\<close> replaces HTML entities, \<open>num_str\<close> is \<open>Number.prototype.toString\<close>.
\<close>

record runtime =
  decode :: "string \<Rightarrow> string"
  num_str :: "rat \<Rightarrow> string"

text \<open>\<open>String(v)\<close> on a parsed JSON value; an array joins its elements with commas,
  printing \<open>null\<close> elements as the empty string.\<close>

fun js_String :: "runtime \<Rightarrow> json \<Rightarrow> string" where
  "js_String rt JNull = ''null''"
| "js_String rt (JBool b) = (if b then ''true'' else ''false'')"
| "js_String rt (JNum n) = num_str rt n"
| "js_String rt (JStr s) = s"
| "js_String rt (JArr xs) =
     join '','' (map (\<lambda>x. if x = JNull then [] else js_String rt x) xs)"
| "js_String rt (JObj _) = ''[object Object]''"

section \<open>Steps: \<open>server/parser/parsers/steps.ts\<close>\<close>

definition getNodeType :: "runtime \<Rightarrow> jsobject \<Rightarrow> string" where
  "getNodeType rt node =
     (case nullish (field node ''@type'') (field node ''type'') of
        Some (JArr vs) \<Rightarrow> join '','' (map (\<lambda>v. toLowerCase (js_String rt v)) vs)
      | Some (JStr s) \<Rightarrow> toLowerCase s
      | _ \<Rightarrow> [])"

definition isStepType :: "string \<Rightarrow> bool" where
  "isStepType t =
     (str_includes t ''howtostep'' \<or> str_includes t ''howtodirection'' \<or> str_includes t ''listitem'')"

definition isSectionType :: "string \<Rightarrow> bool" where
  "isSectionType t = str_includes t ''howtosection''"

text \<open>\<open>x || undefined\<close> on a string: the empty string becomes \<open>undefined\<close>.\<close>

definition nonempty :: "string \<Rightarrow> string option" where
  "nonempty s = (if s = [] then None else Some s)"

text \<open>The \<open>text\<close> (or \<open>name\<close>) of a node, else of its nested \<open>item\<close> object.\<close>

definition nodeString :: "runtime \<Rightarrow> jsobject \<Rightarrow> string \<Rightarrow> string option" where
  "nodeString rt node k =
     (case field node k of
        Some (JStr s) \<Rightarrow> nonempty (trim (decode rt s))
      | _ \<Rightarrow>
        (case field node ''item'' of
           Some (JObj item) \<Rightarrow>
             (case field item k of
                Some (JStr s) \<Rightarrow> nonempty (trim (decode rt s))
              | _ \<Rightarrow> None)
         | _ \<Rightarrow> None))"

definition extractTextFromNode :: "runtime \<Rightarrow> jsobject \<Rightarrow> string option" where
  "extractTextFromNode rt node =
     (let text = nodeString rt node ''text'';
          name = nodeString rt node ''name''
      in case (name, text) of
           (Some n, Some t) \<Rightarrow> Some (''**'' @ n @ '':** '' @ t)
         | (_, Some t) \<Rightarrow> Some t
         | (Some n, None) \<Rightarrow> Some n
         | (None, None) \<Rightarrow> None)"

lemma field_size:
  "field fs k = Some v \<Longrightarrow> size v < Suc (size_list (size_prod (\<lambda>_. 0) size) fs)"
  unfolding field_def by (induction fs) (auto split: if_splits)

text \<open>
  The visitor of \<open>collectSteps\<close>. It only ever appends to \<open>rawSteps\<close>, so each call
  returns the strings it pushes, in the order it pushes them.
\<close>

function visit :: "runtime \<Rightarrow> json \<Rightarrow> string list" where
  "visit rt JNull = []"
| "visit rt (JBool b) = []"
| "visit rt (JNum n) = []"
| "visit rt (JStr cur) =
     (let s = trim (decode rt cur) in if cur \<noteq> [] \<and> s \<noteq> [] then [s] else [])"
| "visit rt (JArr xs) = concat (map (visit rt) xs)"
| "visit rt (JObj obj) =
     (let type = getNodeType rt obj in
      if isSectionType type then
        (case (case field obj ''name'' of Some (JStr n) \<Rightarrow> nonempty (trim (decode rt n))
                                        | _ \<Rightarrow> None) of
           Some sectionName \<Rightarrow> [''# '' @ sectionName]
         | None \<Rightarrow> [])
        @ (case field obj ''itemListElement'' of
             Some v \<Rightarrow> if truthy v then visit rt v else []
           | None \<Rightarrow> [])
        @ (case field obj ''item'' of
             Some v \<Rightarrow> if truthy v then visit rt v else []
           | None \<Rightarrow> [])
      else
        (case extractTextFromNode rt obj of
           Some text \<Rightarrow>
             if isStepType type
                \<or> (\<not> truthy_field obj ''itemListElement'' \<and> \<not> truthy_field obj ''item'')
             then [text] else []
         | None \<Rightarrow> [])
        @ (case field obj ''itemListElement'' of
             Some v \<Rightarrow> if truthy v then visit rt v else []
           | None \<Rightarrow> [])
        @ (case field obj ''item'' of
             Some v \<Rightarrow> if truthy v then visit rt v else []
           | None \<Rightarrow> []))"
  by pat_completeness auto
termination
  apply (relation "measure (\<lambda>(rt, v). size v)")
      apply simp
     apply (simp add: less_Suc_eq_le size_list_estimation')
    apply (auto dest: field_size)
  done

definition collectSteps :: "runtime \<Rightarrow> json option \<Rightarrow> string list" where
  "collectSteps rt node = (case node of None \<Rightarrow> [] | Some v \<Rightarrow> visit rt v)"

text \<open>
  \<open>deduplicateSteps\<close> filters with a predicate that updates the set \<open>seenSteps\<close>; the
  set is threaded through the traversal.
\<close>

fun dedup_filter :: "string set \<Rightarrow> string list \<Rightarrow> string list" where
  "dedup_filter seen [] = []"
| "dedup_filter seen (s # rest) =
     (let trimmed = trim s in
      if trimmed = [] then dedup_filter seen rest
      else if startsWith trimmed ''#'' then s # dedup_filter seen rest
      else let key = toLowerCase trimmed in
        if key \<in> seen then dedup_filter seen rest
        else s # dedup_filter (insert key seen) rest)"

definition deduplicateSteps :: "string list \<Rightarrow> string list" where
  "deduplicateSteps rawSteps = dedup_filter {} rawSteps"

record 'sys ParsedStep =
  step :: string
  step_systemUsed :: 'sys
  step_order :: nat

definition parseSteps :: "runtime \<Rightarrow> json option \<Rightarrow> 'sys \<Rightarrow> 'sys ParsedStep list" where
  "parseSteps rt recipeInstructions systemUsed =
     (let rawSteps = collectSteps rt recipeInstructions;
          deduplicated = deduplicateSteps rawSteps
      in map (\<lambda>(text, i). \<lparr>step = text, step_systemUsed = systemUsed, step_order = i + 1\<rparr>)
             (zip deduplicated [0 ..< length deduplicated]))"

text \<open>The key under which a step is compared, and the steps that are compared at all:
  those that are neither blank nor headings.\<close>

definition step_key :: "string \<Rightarrow> string" where
  "step_key s = toLowerCase (trim s)"

definition plain_step :: "string \<Rightarrow> bool" where
  "plain_step s = (trim s \<noteq> [] \<and> \<not> startsWith (trim s) ''#'')"

text \<open>A runtime for examples: nothing to decode.\<close>

definition plainRuntime :: runtime where
  "plainRuntime = \<lparr>decode = (\<lambda>s. s), num_str = (\<lambda>n. ''0'')\<rparr>"

section \<open>Helpers: \<open>lib/helpers.ts\<close>\<close>

definition is_digit :: "char \<Rightarrow> bool" where
  "is_digit c = (48 \<le> (of_char c :: nat) \<and> (of_char c :: nat) \<le> 57)"

text \<open>The regular-expression class \<open>\w\<close>: letters, digits and the underscore.\<close>

definition is_word :: "char \<Rightarrow> bool" where
  "is_word c =
     (let n = (of_char c :: nat)
      in (48 \<le> n \<and> n \<le> 57) \<or> (65 \<le> n \<and> n \<le> 90) \<or> (97 \<le> n \<and> n \<le> 122) \<or> n = 95)"

text \<open>\<open>parseInt\<close> on a string of decimal digits.\<close>

definition digits_val :: "string \<Rightarrow> nat" where
  "digits_val ds = foldl (\<lambda>a c. 10 * a + ((of_char c :: nat) - 48)) 0 ds"

subsection \<open>\<open>parseIngredientWithDefaults\<close>\<close>

text \<open>
  What the \<open>parse-ingredient\<close> package returns for a line, restricted to the fields
  this repository reads; \<open>quantity\<close> and \<open>unitOfMeasureID\<close> may be \<open>null\<close>.
\<close>

record parsed_ingredient =
  quantity :: "rat option"
  unitOfMeasureID :: "string option"
  description :: string

record unit_def =
  short :: "string option"
  plural :: "string option"
  alternates :: "string list option"

text \<open>The unit dictionary, in the order in which \<open>for (const key in units)\<close> visits it.\<close>

type_synonym UnitsMap = "(string \<times> unit_def) list"

text \<open>\<open>parseIngredient(line, {additionalUOMs: units})\<close>, the package's parser.\<close>

type_synonym baseline_parser = "string \<Rightarrow> UnitsMap \<Rightarrow> parsed_ingredient list"

text \<open>\<open>line.replace(/(\d),(\d)/g, "$1.$2")\<close>: matches do not overlap.\<close>

fun decimalCommas :: "string \<Rightarrow> string" where
  "decimalCommas (a # b # c # rest) =
     (if is_digit a \<and> b = CHR '','' \<and> is_digit c
      then a # CHR ''.'' # c # decimalCommas rest
      else a # decimalCommas (b # c # rest))"
| "decimalCommas s = s"

text \<open>\<open>!parsed[0]?.quantity\<close> is false: there is a first entry whose quantity is
  neither \<open>null\<close> nor zero.\<close>

definition has_quantity :: "parsed_ingredient list \<Rightarrow> bool" where
  "has_quantity parsed =
     (case parsed of [] \<Rightarrow> False
      | p # _ \<Rightarrow> (case quantity p of None \<Rightarrow> False | Some q \<Rightarrow> q \<noteq> 0))"

text \<open>\<open>Set.add\<close> on a set that is later read in insertion order.\<close>

definition set_add :: "string list \<Rightarrow> string \<Rightarrow> string list" where
  "set_add xs x = (if x \<in> set xs then xs else xs @ [x])"

definition truthy_string :: "string option \<Rightarrow> string list" where
  "truthy_string v = (case v of Some s \<Rightarrow> if s \<noteq> [] then [s] else [] | None \<Rightarrow> [])"

definition unit_spellings :: "string \<times> unit_def \<Rightarrow> string list" where
  "unit_spellings e =
     [fst e] @ truthy_string (short (snd e)) @ truthy_string (plural (snd e))
     @ (case alternates (snd e) of Some as \<Rightarrow> as | None \<Rightarrow> [])"

definition allUnits :: "UnitsMap \<Rightarrow> string list" where
  "allUnits units = foldl set_add [] (concat (map unit_spellings units))"

text \<open>\<open>Array.from(allUnits).sort((a, b) => b.length - a.length)\<close>; the sort is stable.\<close>

definition sortedUnits :: "UnitsMap \<Rightarrow> string list" where
  "sortedUnits units = sort_key (\<lambda>u. - int (length u)) (allUnits units)"

text \<open>
  The alternatives of the group \<open>(u1|u2|...)\<close>. Every spelling is escaped, so it
  matches itself; with no spelling at all the group is \<open>()\<close> and matches the empty
  string.
\<close>

definition unitAlternatives :: "UnitsMap \<Rightarrow> string list" where
  "unitAlternatives units = (if sortedUnits units = [] then [[]] else sortedUnits units)"

subsubsection \<open>The search for \<open>\b(\d+(?:[.,]\d+)?)\s*(u1|u2|...)\b\<close>, flag \<open>i\<close>\<close>

fun first_some :: "('a \<Rightarrow> 'b option) \<Rightarrow> 'a list \<Rightarrow> 'b option" where
  "first_some f [] = None"
| "first_some f (x # xs) = (case f x of Some y \<Rightarrow> Some y | None \<Rightarrow> first_some f xs)"

text \<open>The character before the current position, after \<open>s\<close> has been consumed.\<close>

definition last_char :: "char option \<Rightarrow> string \<Rightarrow> char option" where
  "last_char prev s = (if s = [] then prev else Some (last s))"

definition word_boundary :: "char option \<Rightarrow> string \<Rightarrow> bool" where
  "word_boundary prev rest =
     ((case prev of None \<Rightarrow> False | Some c \<Rightarrow> is_word c)
      \<noteq> (case rest of [] \<Rightarrow> False | c # _ \<Rightarrow> is_word c))"

definition ci_eq :: "string \<Rightarrow> string \<Rightarrow> bool" where
  "ci_eq a b = (toLowerCase a = toLowerCase b)"

text \<open>The unit group and the closing \<open>\b\<close>: the alternatives are tried in order.\<close>

definition match_unit :: "string list \<Rightarrow> char option \<Rightarrow> string \<Rightarrow> string option" where
  "match_unit alts prev rest =
     first_some
       (\<lambda>u. let m = take (length u) rest
            in if length u \<le> length rest \<and> ci_eq m u
                  \<and> word_boundary (last_char prev m) (drop (length u) rest)
               then Some m else None)
       alts"

text \<open>\<open>\s*\<close> is greedy: the longest run of spaces is tried first.\<close>

definition match_spaces ::
  "string list \<Rightarrow> char option \<Rightarrow> string \<Rightarrow> (string \<times> string) option" where
  "match_spaces alts prev rest =
     first_some
       (\<lambda>w. case match_unit alts (last_char prev (take w rest)) (drop w rest) of
              Some u \<Rightarrow> Some (take w rest, u)
            | None \<Rightarrow> None)
       (rev [0 ..< Suc (length (takeWhile is_space rest))])"

text \<open>\<open>(?:[.,]\d+)?\<close> is greedy: the fraction is tried before its absence.\<close>

definition match_fraction ::
  "string list \<Rightarrow> char option \<Rightarrow> string \<Rightarrow> (string \<times> string \<times> string) option" where
  "match_fraction alts prev rest =
     (let present =
        (case rest of
           [] \<Rightarrow> None
         | c # r \<Rightarrow>
             if c = CHR ''.'' \<or> c = CHR '','' then
               first_some
                 (\<lambda>k. case match_spaces alts (last_char (Some c) (take k r)) (drop k r) of
                        Some (ws, u) \<Rightarrow> Some (c # take k r, ws, u)
                      | None \<Rightarrow> None)
                 (rev [1 ..< Suc (length (takeWhile is_digit r))])
             else None)
      in case present of
           Some m \<Rightarrow> Some m
         | None \<Rightarrow>
             (case match_spaces alts prev rest of
                Some (ws, u) \<Rightarrow> Some ([], ws, u)
              | None \<Rightarrow> None))"

text \<open>A match that starts at the current position: \<open>(match[1], match[2], match[0])\<close>.\<close>

definition match_here ::
  "string list \<Rightarrow> char option \<Rightarrow> string \<Rightarrow> (string \<times> string \<times> string) option" where
  "match_here alts prev rest =
     (if \<not> word_boundary prev rest then None
      else
        first_some
          (\<lambda>n. case match_fraction alts (last_char prev (take n rest)) (drop n rest) of
                 Some (fr, ws, u) \<Rightarrow> Some (take n rest @ fr, u, take n rest @ fr @ ws @ u)
               | None \<Rightarrow> None)
          (rev [1 ..< Suc (length (takeWhile is_digit rest))]))"

text \<open>\<open>String.prototype.match\<close>: the leftmost position that has a match.\<close>

fun regex_search ::
  "string list \<Rightarrow> char option \<Rightarrow> string \<Rightarrow> (string \<times> string \<times> string) option" where
  "regex_search alts prev [] = match_here alts prev []"
| "regex_search alts prev (c # cs) =
     (case match_here alts prev (c # cs) of
        Some m \<Rightarrow> Some m
      | None \<Rightarrow> regex_search alts (Some c) cs)"

text \<open>\<open>s.replace(pat, "")\<close> with a string pattern removes its first occurrence.\<close>

fun replace_first :: "string \<Rightarrow> string \<Rightarrow> string" where
  "replace_first pat [] = []"
| "replace_first pat (c # cs) =
     (if startsWith (c # cs) pat then drop (length pat) (c # cs)
      else c # replace_first pat cs)"

text \<open>\<open>s.replace(/\s+/g, " ")\<close>.\<close>

function collapse_spaces :: "string \<Rightarrow> string" where
  "collapse_spaces [] = []"
| "collapse_spaces (c # cs) =
     (if is_space c then CHR '' '' # collapse_spaces (dropWhile is_space cs)
      else c # collapse_spaces cs)"
  by pat_completeness auto
termination
  by (relation "measure length") (auto simp: less_Suc_eq_le length_dropWhile_le)

definition reorderLine :: "UnitsMap \<Rightarrow> string \<Rightarrow> string option" where
  "reorderLine units normalizedLine =
     (case regex_search (unitAlternatives units) None normalizedLine of
        None \<Rightarrow> None
      | Some (qty, unit, whole) \<Rightarrow>
          let rest = collapse_spaces (trim (replace_first whole normalizedLine))
          in Some (qty @ '' '' @ unit @ '' '' @ rest))"

text \<open>The body of the loop over the lines, for a line that is not empty.\<close>

definition parseLine :: "baseline_parser \<Rightarrow> UnitsMap \<Rightarrow> string \<Rightarrow> parsed_ingredient list" where
  "parseLine parseIngredient units line =
     (let normalizedLine = decimalCommas line;
          parsed = parseIngredient normalizedLine units
      in if \<not> has_quantity parsed then
           (case reorderLine units normalizedLine of
              Some reordered \<Rightarrow>
                let smartParsed = parseIngredient reordered units
                in if has_quantity smartParsed then smartParsed else parsed
            | None \<Rightarrow> parsed)
         else parsed)"

definition parseIngredientWithDefaults ::
  "baseline_parser \<Rightarrow> string list \<Rightarrow> UnitsMap \<Rightarrow> parsed_ingredient list" where
  "parseIngredientWithDefaults parseIngredient lines units =
     concat (map (parseLine parseIngredient units) (filter (\<lambda>line. line \<noteq> []) lines))"

text \<open>
  A position-sensitive baseline parser, used to run examples: a number at the start of
  the line is the quantity, a dictionary spelling after it is the unit, and what
  follows is the description. The theorems below hold for every baseline parser.
\<close>

definition canonicalUnit :: "UnitsMap \<Rightarrow> string \<Rightarrow> string option" where
  "canonicalUnit units w =
     map_option fst (find (\<lambda>e. list_ex (ci_eq w) (unit_spellings e)) units)"

definition leadingNumber :: "string \<Rightarrow> (rat \<times> string) option" where
  "leadingNumber s =
     (let i = takeWhile is_digit s; r = dropWhile is_digit s
      in if i = [] then None
         else case r of
                c # r' \<Rightarrow>
                  let f = takeWhile is_digit r'
                  in if c = CHR ''.'' \<and> f \<noteq> []
                     then Some (of_nat (digits_val i) + of_nat (digits_val f) / 10 ^ length f,
                                dropWhile is_digit r')
                     else Some (of_nat (digits_val i), r)
              | [] \<Rightarrow> Some (of_nat (digits_val i), r))"

definition positionalParser :: baseline_parser where
  "positionalParser line units =
     (case leadingNumber line of
        None \<Rightarrow> [\<lparr>quantity = None, unitOfMeasureID = None, description = trim line\<rparr>]
      | Some (q, r) \<Rightarrow>
          let r1 = dropWhile is_space r;
              w = takeWhile (\<lambda>c. \<not> is_space c) r1
          in case canonicalUnit units w of
               Some u \<Rightarrow> [\<lparr>quantity = Some q, unitOfMeasureID = Some u,
                           description = trim (dropWhile (\<lambda>c. \<not> is_space c) r1)\<rparr>]
             | None \<Rightarrow> [\<lparr>quantity = Some q, unitOfMeasureID = None, description = trim r1\<rparr>])"

subsection \<open>\<open>parseIsoDuration\<close>\<close>




section \<open>Metadata: \<open>server/parser/parsers/metadata.ts\<close>\<close>


text \<open>
  \<open>raw.replace(/^\[\s*'(.+)'\s*\]$/, "$1")\<close>. Neither the quote nor the bracket is
  a space, so the pattern fits in one way at most; \<open>.\<close> matches no line terminator.
\<close>

definition is_line_terminator :: "char \<Rightarrow> bool" where
  "is_line_terminator c = (of_char c \<in> {10, 13 :: nat})"

definition unbracket :: "string \<Rightarrow> string" where
  "unbracket raw =
     (case raw of
        [] \<Rightarrow> raw
      | b # r \<Rightarrow>
          if b \<noteq> CHR ''['' then raw
          else (case dropWhile is_space r of
                  [] \<Rightarrow> raw
                | q # r2 \<Rightarrow>
                    if q \<noteq> CHR 0x27 then raw
                    else (case rev r2 of
                            [] \<Rightarrow> raw
                          | e # t \<Rightarrow>
                              if e \<noteq> CHR '']'' then raw
                              else (case dropWhile is_space t of
                                      [] \<Rightarrow> raw
                                    | q' # t2 \<Rightarrow>
                                        if q' = CHR 0x27 \<and> t2 \<noteq> []
                                           \<and> \<not> list_ex is_line_terminator t2
                                        then rev t2 else raw))))"

text \<open>The name that \<open>getName\<close> reads off \<open>raw\<close>, the value it picked.\<close>

definition nameOfRaw :: "runtime \<Rightarrow> json option \<Rightarrow> string option" where
  "nameOfRaw rt raw =
     (case raw of
        Some (JArr vs) \<Rightarrow>
          nonempty (decode rt (case vs of
                                 [] \<Rightarrow> []
                               | v # _ \<Rightarrow> if v = JNull then [] else js_String rt v))
      | Some (JStr s) \<Rightarrow> nonempty (decode rt (unbracket s))
      | _ \<Rightarrow> None)"







section \<open>Ingredients: \<open>server/parser/parsers/ingredients.ts\<close>\<close>

record 'sys RecipeIngredient =
  ingredientId :: "string option"
  ingredientName :: string
  amount :: "rat option"
  unit :: "string option"
  ing_systemUsed :: 'sys
  ing_order :: nat

definition normalizeIngredientSource :: "runtime \<Rightarrow> json option \<Rightarrow> string list" where
  "normalizeIngredientSource rt ingSource =
     (case ingSource of
        Some (JArr vs) \<Rightarrow>
          filter (\<lambda>s. s \<noteq> [])
            (map (\<lambda>v. if v = JNull then [] else decode rt (js_String rt v)) vs)
      | Some (JStr s) \<Rightarrow> [decode rt s]
      | _ \<Rightarrow> [])"

definition toIngredients ::
  "'sys \<Rightarrow> parsed_ingredient list \<Rightarrow> 'sys RecipeIngredient list" where
  "toIngredients systemUsed parsed =
     map (\<lambda>(ing, i). \<lparr>ingredientId = None, ingredientName = description ing,
                       amount = quantity ing, unit = unitOfMeasureID ing,
                       ing_systemUsed = systemUsed, ing_order = i\<rparr>)
         (zip parsed [0 ..< length parsed])"

definition parseIngredients ::
  "runtime \<Rightarrow> baseline_parser \<Rightarrow> (parsed_ingredient list \<Rightarrow> 'sys) \<Rightarrow> jsobject \<Rightarrow> UnitsMap
     \<Rightarrow> 'sys RecipeIngredient list \<times> 'sys" where
  "parseIngredients rt parseIngredient inferSystemUsedFromParsed json units =
     (let ingSource = nullish (field json ''recipeIngredient'') (field json ''ingredients'');
          rawIngredients = normalizeIngredientSource rt ingSource;
          parsed = parseIngredientWithDefaults parseIngredient rawIngredients units;
          systemUsed = inferSystemUsedFromParsed parsed
      in (toIngredients systemUsed parsed, systemUsed))"

section \<open>Archive imports: \<open>server/importers/parser-helpers.ts\<close>\<close>

text \<open>\<open>s.split(/\r?\n/)\<close>: a carriage return counts only in front of a line feed.\<close>

fun splitNewlines :: "string \<Rightarrow> string list" where
  "splitNewlines [] = [[]]"
| "splitNewlines (c # cs) =
     (if c = CHR 0x0A then [] # splitNewlines cs
      else if c = CHR 0x0D \<and> (case cs of d # _ \<Rightarrow> d = CHR 0x0A | [] \<Rightarrow> False)
      then splitNewlines cs
      else (case splitNewlines cs of
              l # ls \<Rightarrow> (c # l) # ls
            | [] \<Rightarrow> [[c]]))"

definition splitNonEmptyLines :: "string option \<Rightarrow> string list" where
  "splitNonEmptyLines s =
     (case s of
        None \<Rightarrow> []
      | Some t \<Rightarrow> if t = [] then [] else filter (\<lambda>x. length x > 0) (map trim (splitNewlines t)))"

record RecipeParseInput =
  in_name :: string
  in_image :: "string option"
  in_url :: "string option"
  in_description :: "string option"
  in_servings :: "rat option"
  in_prepMinutes :: "rat option"
  in_cookMinutes :: "rat option"
  in_totalMinutes :: "rat option"
  ingredientsText :: "string option"
  instructionsText :: "string option"
  categories :: "string list option"

record 'sys FullRecipeInsertDTO =
  dto_id :: "string option"
  dto_name :: string
  dto_url :: "string option"
  dto_image :: "string option"
  dto_description :: "string option"
  dto_servings :: "rat option"
  dto_systemUsed :: 'sys
  dto_prepMinutes :: "rat option"
  dto_cookMinutes :: "rat option"
  dto_totalMinutes :: "rat option"
  recipeIngredients :: "'sys RecipeIngredient list"
  steps :: "'sys ParsedStep list"
  tags :: "string list"

text \<open>
  What \<open>buildRecipeDTO\<close> takes from its surroundings: the unit dictionary of
  \<open>getUnits\<close>, the package's parser, \<open>inferSystemUsedFromParsed\<close> and the schema's
  \<open>safeParse\<close>, which answers with the validated DTO or with an error message.
\<close>

record 'sys build_services =
  getUnits :: UnitsMap
  parseIngredient :: baseline_parser
  inferSystemUsedFromParsed :: "parsed_ingredient list \<Rightarrow> 'sys"
  safeParse :: "'sys FullRecipeInsertDTO \<Rightarrow> string + 'sys FullRecipeInsertDTO"

text \<open>\<open>x || undefined\<close> on an optional string.\<close>

definition or_undefined :: "string option \<Rightarrow> string option" where
  "or_undefined v = (case v of Some s \<Rightarrow> nonempty s | None \<Rightarrow> None)"

definition buildRecipeDTO ::
  "'sys build_services \<Rightarrow> RecipeParseInput \<Rightarrow> string + 'sys FullRecipeInsertDTO" where
  "buildRecipeDTO sv input =
     (if in_name input = [] \<or> trim (in_name input) = [] then Inl ''Missing recipe name''
      else
        let units = getUnits sv;
            ingredientLines = splitNonEmptyLines (ingredientsText input);
            ingredientArray = parseIngredientWithDefaults (parseIngredient sv) ingredientLines units;
            systemUsed = inferSystemUsedFromParsed sv ingredientArray;
            stepLines = splitNonEmptyLines (instructionsText input);
            tags = map trim (filter (\<lambda>cat. cat \<noteq> [] \<and> trim cat \<noteq> [])
                              (case categories input of Some cs \<Rightarrow> cs | None \<Rightarrow> []));
            dto = \<lparr>dto_id = None,
                   dto_name = trim (in_name input),
                   dto_url = or_undefined (in_url input),
                   dto_image = or_undefined (in_image input),
                   dto_description = or_undefined (in_description input),
                   dto_servings = in_servings input,
                   dto_systemUsed = systemUsed,
                   dto_prepMinutes = in_prepMinutes input,
                   dto_cookMinutes = in_cookMinutes input,
                   dto_totalMinutes = in_totalMinutes input,
                   recipeIngredients = toIngredients systemUsed ingredientArray,
                   steps = map (\<lambda>(s, i). \<lparr>step = s, step_systemUsed = systemUsed, step_order = i\<rparr>)
                               (zip stepLines [0 ..< length stepLines]),
                   tags = tags\<rparr>
        in case safeParse sv dto of
             Inl message \<Rightarrow> Inl (''Schema validation failed: '' @ message)
           | Inr data \<Rightarrow> Inr data)"

section \<open>The URL-import orchestrator: \<open>server/parser/index.ts\<close>\<close>

record 'sys ParseRecipeResult =
  recipe :: "'sys FullRecipeInsertDTO"
  usedAI :: bool

text \<open>
  The collaborators of the orchestrator. A call that throws answers \<open>Inl\<close> with the
  error's message. \<open>extractRecipeWithAI\<close> answers with a result object, which is a
  success carrying the recipe or a failure carrying an error.
\<close>

record 'sys services =
  isVideoUrl :: "string \<Rightarrow> bool"
  isVideoParsingEnabled :: bool
  processVideoRecipe ::
    "string \<Rightarrow> string \<Rightarrow> string list option \<Rightarrow> string + 'sys FullRecipeInsertDTO"
  fetchViaPlaywright :: "string \<Rightarrow> string + string option"
  schemaIndicators :: "string list"
  contentIndicators :: "string list"
  shouldAlwaysUseAI :: bool
  tryExtractRecipeFromJsonLd ::
    "string \<Rightarrow> string \<Rightarrow> string \<Rightarrow> string + 'sys FullRecipeInsertDTO option"
  tryExtractRecipeFromMicrodata ::
    "string \<Rightarrow> string \<Rightarrow> string \<Rightarrow> string + 'sys FullRecipeInsertDTO option"
  extractRecipeNodesFromJsonLd :: "string \<Rightarrow> json list"
  stringify :: "json list \<Rightarrow> string"
  isAIEnabled :: bool
  extractRecipeWithAI ::
    "string \<Rightarrow> string \<Rightarrow> string \<Rightarrow> string list option
       \<Rightarrow> string + (string + 'sys FullRecipeInsertDTO)"

text \<open>The DTO's type makes both fields arrays, so only their lengths are tested.\<close>

definition hasValidRecipeData :: "'sys FullRecipeInsertDTO option \<Rightarrow> bool" where
  "hasValidRecipeData r =
     (case r of
        None \<Rightarrow> False
      | Some d \<Rightarrow> length (recipeIngredients d) > 0 \<and> length (steps d) > 0)"

definition tryExtractWithAI ::
  "'sys services \<Rightarrow> string \<Rightarrow> string \<Rightarrow> string \<Rightarrow> string list option \<Rightarrow> bool
     \<Rightarrow> string + 'sys FullRecipeInsertDTO option" where
  "tryExtractWithAI sv input recipeId url allergies requireAI =
     (if \<not> isAIEnabled sv then
        (if requireAI then Inl ''AI-only import requested but AI is not enabled.''
         else Inr None)
      else
        (case extractRecipeWithAI sv input recipeId url allergies of
           Inl e \<Rightarrow> Inl e
         | Inr (Inr d) \<Rightarrow> Inr (Some d)
         | Inr (Inl failure) \<Rightarrow> Inr None))"

definition extractWithAIPreference ::
  "'sys services \<Rightarrow> string \<Rightarrow> string \<Rightarrow> string \<Rightarrow> string list option \<Rightarrow> bool
     \<Rightarrow> string + 'sys FullRecipeInsertDTO option" where
  "extractWithAIPreference sv html recipeId url allergies requireAI =
     (let jsonLdNodes = extractRecipeNodesFromJsonLd sv html;
          fullHtml = tryExtractWithAI sv html recipeId url allergies requireAI
      in if length jsonLdNodes > 0 then
           (case tryExtractWithAI sv (stringify sv jsonLdNodes) recipeId url allergies requireAI of
              Inl e \<Rightarrow> Inl e
            | Inr (Some fromJsonLd) \<Rightarrow> Inr (Some fromJsonLd)
            | Inr None \<Rightarrow> fullHtml)
         else fullHtml)"

definition tryStructuredParsers ::
  "'sys services \<Rightarrow> string \<Rightarrow> string \<Rightarrow> string \<Rightarrow> string + 'sys FullRecipeInsertDTO option" where
  "tryStructuredParsers sv url html recipeId =
     (case tryExtractRecipeFromJsonLd sv url html recipeId of
        Inl e \<Rightarrow> Inl e
      | Inr jsonLdParsed \<Rightarrow>
          if hasValidRecipeData jsonLdParsed then Inr jsonLdParsed
          else (case tryExtractRecipeFromMicrodata sv url html recipeId of
                  Inl e \<Rightarrow> Inl e
                | Inr microParsed \<Rightarrow>
                    if hasValidRecipeData microParsed then Inr microParsed else Inr None))"

definition tryHandleVideoUrl ::
  "'sys services \<Rightarrow> string \<Rightarrow> string \<Rightarrow> string list option
     \<Rightarrow> string + 'sys ParseRecipeResult option" where
  "tryHandleVideoUrl sv url recipeId allergies =
     (if \<not> isVideoUrl sv url then Inr None
      else if \<not> isVideoParsingEnabled sv then Inl ''Video recipe parsing is not enabled.''
      else (case processVideoRecipe sv url recipeId allergies of
              Inl e \<Rightarrow> Inl e
            | Inr r \<Rightarrow> Inr (Some \<lparr>recipe = r, usedAI = True\<rparr>)))"

definition isPageLikelyRecipe :: "'sys services \<Rightarrow> string \<Rightarrow> bool" where
  "isPageLikelyRecipe sv html =
     (let lowered = toLowerCase html;
          hasSchema = list_ex (\<lambda>i. str_includes lowered (toLowerCase i)) (schemaIndicators sv);
          contentHits =
            length (filter (\<lambda>i. str_includes lowered (toLowerCase i)) (contentIndicators sv))
      in hasSchema \<or> contentHits \<ge> 2)"

definition parseRecipeFromUrl ::
  "'sys services \<Rightarrow> string \<Rightarrow> string \<Rightarrow> string list option \<Rightarrow> bool option
     \<Rightarrow> string + 'sys ParseRecipeResult" where
  "parseRecipeFromUrl sv url recipeId allergies forceAI =
     (case tryHandleVideoUrl sv url recipeId allergies of
        Inl e \<Rightarrow> Inl e
      | Inr (Some videoResult) \<Rightarrow> Inr videoResult
      | Inr None \<Rightarrow>
     (case fetchViaPlaywright sv url of
        Inl e \<Rightarrow> Inl e
      | Inr fetched \<Rightarrow>
     (case or_undefined fetched of
        None \<Rightarrow> Inl ''Cannot fetch recipe page.''
      | Some html \<Rightarrow>
          if \<not> isPageLikelyRecipe sv html then Inl ''Page does not appear to contain a recipe.''
          else
            let useAIOnly = (case forceAI of Some b \<Rightarrow> b | None \<Rightarrow> shouldAlwaysUseAI sv)
            in if useAIOnly then
                 (case extractWithAIPreference sv html recipeId url allergies True of
                    Inl e \<Rightarrow> Inl e
                  | Inr None \<Rightarrow> Inl ''AI extraction failed''
                  | Inr (Some r) \<Rightarrow> Inr \<lparr>recipe = r, usedAI = True\<rparr>)
               else
                 (case tryStructuredParsers sv url html recipeId of
                    Inl e \<Rightarrow> Inl e
                  | Inr (Some structured) \<Rightarrow> Inr \<lparr>recipe = structured, usedAI = False\<rparr>
                  | Inr None \<Rightarrow>
                      (case extractWithAIPreference sv html recipeId url allergies False of
                         Inl e \<Rightarrow> Inl e
                       | Inr (Some r) \<Rightarrow> Inr \<lparr>recipe = r, usedAI = True\<rparr>
                       | Inr None \<Rightarrow> Inl ''Cannot parse recipe.'')))))"

section \<open>Paprika archives: \<open>server/importers/paprika-parser.ts\<close>\<close>






















section \<open>Videos: \<open>server/parser/parsers/videos.ts\<close>\<close>


















section \<open>Store preferences: \<open>server/db/repositories/stores.ts\<close>\<close>








text \<open>The Mela example of the specification, with a validator that accepts its input.\<close>

definition teaUnits :: UnitsMap where
  "teaUnits = [(''cup'', \<lparr>short = Some ''c'', plural = Some ''cups'', alternates = None\<rparr>),
               (''teaspoon'', \<lparr>short = Some ''tsp'', plural = Some ''teaspoons'', alternates = None\<rparr>)]"

definition teaServices :: "unit build_services" where
  "teaServices = \<lparr>getUnits = teaUnits, parseIngredient = positionalParser,
                  inferSystemUsedFromParsed = (\<lambda>parsed. ()), safeParse = Inr\<rparr>"

definition teaInput :: RecipeParseInput where
  "teaInput = \<lparr>in_name = ''Tea'', in_image = None, in_url = None, in_description = None,
               in_servings = None, in_prepMinutes = None, in_cookMinutes = None,
               in_totalMinutes = None,
               ingredientsText = Some (''1 cup water'' @ [CHR 0x0A] @ ''2 tsp tea leaves''),
               instructionsText = Some (''Boil water'' @ [CHR 0x0A] @ ''Steep leaves''),
               categories = None\<rparr>"

section \<open>Notions used in the statements\<close>

text \<open>
  The orchestrator has reached its structured stage for \<open>url\<close>: the URL is not a
  video, the page \<open>html\<close> was fetched and looks like a recipe, and AI-only mode is off.
\<close>

definition structuredStage :: "'sys services \<Rightarrow> string \<Rightarrow> string \<Rightarrow> bool option \<Rightarrow> bool" where
  "structuredStage sv url html forceAI =
     (\<not> isVideoUrl sv url \<and> fetchViaPlaywright sv url = Inr (Some html) \<and> html \<noteq> []
      \<and> isPageLikelyRecipe sv html
      \<and> \<not> (case forceAI of Some b \<Rightarrow> b | None \<Rightarrow> shouldAlwaysUseAI sv))"





text \<open>
  The tokens of the unit pattern: a number is a run of digits, optionally followed by a
  dot or a comma and more digits; a unit is one of the alternatives up to letter case.
  \<open>token_at alts pre q ws u post\<close> says that the line \<open>pre @ q @ ws @ u @ post\<close> has
  the number \<open>q\<close>, the blanks \<open>ws\<close> and the unit \<open>u\<close> between word boundaries.
\<close>

definition number_token :: "string \<Rightarrow> bool" where
  "number_token q =
     (let i = takeWhile is_digit q; r = dropWhile is_digit q
      in i \<noteq> [] \<and>
         (case r of
            [] \<Rightarrow> True
          | c # f \<Rightarrow> (c = CHR ''.'' \<or> c = CHR '','') \<and> f \<noteq> [] \<and> list_all is_digit f))"

definition unit_token :: "string list \<Rightarrow> string \<Rightarrow> bool" where
  "unit_token alts u = list_ex (ci_eq u) alts"

definition fraction_part :: "string \<Rightarrow> bool" where
  "fraction_part fr =
     (case fr of
        [] \<Rightarrow> True
      | c # f \<Rightarrow> (c = CHR ''.'' \<or> c = CHR '','') \<and> f \<noteq> [] \<and> list_all is_digit f)"





text \<open>
  A decimal numeral is a string of digits that is not empty. A string begins with a
  duration component when it starts with a decimal numeral followed by the
  component's letter, in either case.
\<close>

definition decimal :: "string \<Rightarrow> bool" where
  "decimal ds = (ds \<noteq> [] \<and> list_all is_digit ds)"

definition begins_component :: "char \<Rightarrow> string \<Rightarrow> bool" where
  "begins_component letter s =
     (takeWhile is_digit s \<noteq> [] \<and>
      (case dropWhile is_digit s of c # _ \<Rightarrow> lower_char c = letter | [] \<Rightarrow> False))"



definition rtrim :: "string \<Rightarrow> string" where
  "rtrim s = rev (dropWhile is_space (rev s))"


section \<open>Examples\<close>

definition soupIngredient :: "unit RecipeIngredient" where
  "soupIngredient = \<lparr>ingredientId = None, ingredientName = ''water'', amount = Some 1,
                      unit = Some ''cup'', ing_systemUsed = (), ing_order = 0\<rparr>"

definition soupDto :: "unit ParsedStep list \<Rightarrow> string \<Rightarrow> unit FullRecipeInsertDTO" where
  "soupDto stepList title =
     \<lparr>dto_id = None, dto_name = title, dto_url = None, dto_image = None,
      dto_description = None, dto_servings = None, dto_systemUsed = (),
      dto_prepMinutes = None, dto_cookMinutes = None, dto_totalMinutes = None,
      recipeIngredients = [soupIngredient], steps = stepList, tags = []\<rparr>"

definition boil :: "unit ParsedStep" where
  "boil = \<lparr>step = ''Boil.'', step_systemUsed = (), step_order = 1\<rparr>"

text \<open>An import whose page passes the heuristic, with the given answers of the two
  structured extractors and an AI extraction that succeeds.\<close>

definition importServices ::
  "unit FullRecipeInsertDTO option \<Rightarrow> unit FullRecipeInsertDTO option \<Rightarrow> unit services" where
  "importServices j m =
     \<lparr>isVideoUrl = (\<lambda>u. False), isVideoParsingEnabled = False,
      processVideoRecipe = (\<lambda>u r a. Inl ''no video''),
      fetchViaPlaywright = (\<lambda>u. Inr (Some ''<h1>Soup</h1> Ingredients: water. Instructions: boil.'')),
      schemaIndicators = [''schema.org/Recipe''],
      contentIndicators = [''Ingredients'', ''Instructions'', ''Servings''],
      shouldAlwaysUseAI = False,
      tryExtractRecipeFromJsonLd = (\<lambda>u h r. Inr j),
      tryExtractRecipeFromMicrodata = (\<lambda>u h r. Inr m),
      extractRecipeNodesFromJsonLd = (\<lambda>h. []), stringify = (\<lambda>n. ''[]''),
      isAIEnabled = True,
      extractRecipeWithAI = (\<lambda>i r u a. Inr (Inr (soupDto [boil] ''Soup (AI)'')))\<rparr>"




















section \<open>Properties of the step parsers\<close>

subsection \<open>Deduplication\<close>

lemma dedup_filter_Cons:
  "dedup_filter seen (s # rest) =
     (if trim s = [] then dedup_filter seen rest
      else if \<not> plain_step s then s # dedup_filter seen rest
      else if step_key s \<in> seen then dedup_filter seen rest
      else s # dedup_filter (insert (step_key s) seen) rest)"
  by (simp add: Let_def plain_step_def step_key_def)

declare dedup_filter.simps(2) [simp del]

lemma hash_not_space: "\<not> is_space CHR ''#''"
  by (simp add: is_space_def)

lemma trim_hash:
  assumes "startsWith s ''#''"
  shows "trim s \<noteq> [] \<and> startsWith (trim s) ''#''"
proof -
  from assms obtain t where s: "s = CHR ''#'' # t"
    by (cases s) (auto simp: startsWith_def)
  have "trim (CHR ''#'' # t) = CHR ''#'' # rev (dropWhile is_space (rev t))"
    by (simp add: trim_def hash_not_space dropWhile_append3)
  then show ?thesis by (simp add: startsWith_def s)
qed

lemma heading_not_plain: "startsWith s ''#'' \<Longrightarrow> \<not> plain_step s \<and> trim s \<noteq> []"
  using trim_hash by (simp add: plain_step_def)

lemma dedup_idem: "dedup_filter seen (dedup_filter seen xs) = dedup_filter seen xs"
proof (induction xs arbitrary: seen)
  case Nil
  show ?case by simp
next
  case (Cons s xs)
  show ?case
    by (simp only: dedup_filter_Cons Cons.IH split: if_splits) simp
qed

lemma dedup_headings:
  "filter (\<lambda>s. startsWith s ''#'') (dedup_filter seen xs) = filter (\<lambda>s. startsWith s ''#'') xs"
proof (induction xs arbitrary: seen)
  case Nil
  show ?case by simp
next
  case (Cons s xs)
  show ?case
    using heading_not_plain[of s] by (simp add: dedup_filter_Cons Cons.IH)
qed

lemma dedup_subseq: "subseq (dedup_filter seen xs) xs"
proof (induction xs arbitrary: seen)
  case Nil
  show ?case by simp
next
  case (Cons s xs)
  show ?case
    by (auto simp: dedup_filter_Cons Cons.IH intro: list_emb_Cons)
qed

lemma dedup_keys_notin:
  "s \<in> set (dedup_filter seen xs) \<Longrightarrow> plain_step s \<Longrightarrow> step_key s \<notin> seen"
proof (induction xs arbitrary: seen)
  case Nil
  then show ?case by simp
next
  case (Cons x xs)
  from Cons.prems(1) consider
      "s \<in> set (dedup_filter seen xs)"
    | "s = x" "step_key x \<notin> seen"
    | "s = x" "\<not> plain_step x"
    | "s \<in> set (dedup_filter (insert (step_key x) seen) xs)"
    by (auto simp: dedup_filter_Cons split: if_splits)
  then show ?case
  proof cases
    case 1
    then show ?thesis using Cons.IH Cons.prems(2) by blast
  next
    case 2
    then show ?thesis by simp
  next
    case 3
    then show ?thesis using Cons.prems(2) by simp
  next
    case 4
    then have "step_key s \<notin> insert (step_key x) seen" using Cons.IH Cons.prems(2) by blast
    then show ?thesis by simp
  qed
qed

lemma dedup_distinct:
  "distinct (map step_key (filter plain_step (dedup_filter seen xs)))"
proof (induction xs arbitrary: seen)
  case Nil
  then show ?case by simp
next
  case (Cons s xs)
  show ?case
  proof (cases "plain_step s \<and> step_key s \<notin> seen")
    case True
    have a: "dedup_filter seen (s # xs) = s # dedup_filter (insert (step_key s) seen) xs"
      using True by (simp add: dedup_filter_Cons plain_step_def)
    have b: "step_key s \<notin> step_key ` set (filter plain_step (dedup_filter (insert (step_key s) seen) xs))"
    proof
      assume "step_key s \<in> step_key ` set (filter plain_step (dedup_filter (insert (step_key s) seen) xs))"
      then obtain t where t: "t \<in> set (dedup_filter (insert (step_key s) seen) xs)"
        "plain_step t" "step_key t = step_key s" by auto
      from dedup_keys_notin[OF t(1) t(2)] t(3) show False by simp
    qed
    show ?thesis using True Cons.IH[of "insert (step_key s) seen"] b by (simp add: a)
  next
    case False
    then have "dedup_filter seen (s # xs) = dedup_filter seen xs
       \<or> (dedup_filter seen (s # xs) = s # dedup_filter seen xs \<and> \<not> plain_step s)"
      by (auto simp: dedup_filter_Cons plain_step_def)
    then show ?thesis using Cons.IH[of seen] by auto
  qed
qed

lemma dedup_first:
  "find (\<lambda>t. plain_step t \<and> step_key t = k) (dedup_filter seen xs) =
     (if k \<in> seen then None else find (\<lambda>t. plain_step t \<and> step_key t = k) xs)"
proof (induction xs arbitrary: seen)
  case Nil
  then show ?case by simp
next
  case (Cons s xs)
  have blank: "trim s = [] \<Longrightarrow> \<not> plain_step s" by (simp add: plain_step_def)
  show ?case
    using blank by (auto simp: dedup_filter_Cons Cons.IH)
qed

text \<open>
  Claim C6. \<open>deduplicateSteps\<close> is idempotent. It keeps the order of the input; every
  string that starts with \<open>#\<close> survives, however often it occurs; among the other
  steps no two of the result agree up to letter case (and surrounding blanks), and
  the one that is kept for a given key is the first one of the input with that key.
\<close>

theorem deduplicateSteps_idempotent_keeps_headings:
  "deduplicateSteps (deduplicateSteps xs) = deduplicateSteps xs
   \<and> subseq (deduplicateSteps xs) xs
   \<and> filter (\<lambda>s. startsWith s ''#'') (deduplicateSteps xs) = filter (\<lambda>s. startsWith s ''#'') xs
   \<and> distinct (map step_key (filter plain_step (deduplicateSteps xs)))
   \<and> find (\<lambda>t. plain_step t \<and> step_key t = k) (deduplicateSteps xs)
       = find (\<lambda>t. plain_step t \<and> step_key t = k) xs"
  unfolding deduplicateSteps_def
  using dedup_idem[of "{}" xs] dedup_subseq[of "{}" xs] dedup_headings[of "{}" xs]
    dedup_distinct[of "{}" xs] dedup_first[of k "{}" xs]
  by simp

theorem deduplicateSteps_example:
  "deduplicateSteps (deduplicateSteps [''Mix'', ''# Part'', ''MIX'', ''# Part'', ''Bake''])
     = [''Mix'', ''# Part'', ''# Part'', ''Bake'']
   \<and> deduplicateSteps [''Mix'', ''# Part'', ''MIX'', ''# Part'', ''Bake'']
     = [''Mix'', ''# Part'', ''# Part'', ''Bake'']"
  using deduplicateSteps_idempotent_keeps_headings
    [of "[''Mix'', ''# Part'', ''MIX'', ''# Part'', ''Bake'']" "''mix''"]
  by code_simp

subsection \<open>Section headings\<close>

lemma truthy_field_None: "field obj k = None \<Longrightarrow> \<not> truthy_field obj k"
  by (simp add: truthy_field_def)












subsection \<open>Order fields of the JSON-LD path\<close>

lemma map_indexed:
  "map (\<lambda>(x, i). f i) (zip xs [0 ..< length xs]) = map f [0 ..< length xs]"
  by (rule nth_equalityI) simp_all

lemma parseSteps_order:
  "map step_order (parseSteps rt ri sys) = [1 ..< Suc (length (parseSteps rt ri sys))]"
proof -
  let ?d = "deduplicateSteps (collectSteps rt ri)"
  have "map step_order (parseSteps rt ri sys) = map (\<lambda>(x, i). i + 1) (zip ?d [0 ..< length ?d])"
    by (simp add: parseSteps_def Let_def comp_def case_prod_unfold)
  also have "\<dots> = map (\<lambda>i. i + 1) [0 ..< length ?d]"
    by (rule map_indexed)
  also have "\<dots> = [1 ..< Suc (length ?d)]"
    by (simp add: map_Suc_upt del: upt_Suc)
  finally show ?thesis by (simp add: parseSteps_def Let_def)
qed

section \<open>Properties of the duration parser\<close>











lemma begins_componentD:
  assumes "begins_component l s"
  shows "\<exists>ds c r. s = ds @ c # r \<and> decimal ds \<and> lower_char c = l"
proof -
  obtain c r where d: "dropWhile is_digit s = c # r" "lower_char c = l"
    using assms by (auto simp: begins_component_def split: list.splits)
  have "s = takeWhile is_digit s @ c # r" using d(1) takeWhile_dropWhile_id[of is_digit s] by simp
  moreover have "decimal (takeWhile is_digit s)"
    using assms by (auto simp: begins_component_def decimal_def list_all_iff dest: set_takeWhileD)
  ultimately show ?thesis using d(2) by blast
qed

text \<open>The four shapes of what follows the \<open>PT\<close> cover every string.\<close>

lemma duration_shapes:
  "(\<exists>h x m y tail. rest = h @ x # m @ y # tail \<and> decimal h \<and> lower_char x = CHR ''h''
        \<and> decimal m \<and> lower_char y = CHR ''m'')
   \<or> (\<exists>h x tail. rest = h @ x # tail \<and> decimal h \<and> lower_char x = CHR ''h''
        \<and> \<not> begins_component CHR ''m'' tail)
   \<or> (\<exists>m y tail. rest = m @ y # tail \<and> decimal m \<and> lower_char y = CHR ''m'')
   \<or> (\<not> begins_component CHR ''h'' rest \<and> \<not> begins_component CHR ''m'' rest)"
proof (cases "begins_component CHR ''h'' rest")
  case True
  then obtain h x tail where h: "rest = h @ x # tail" "decimal h" "lower_char x = CHR ''h''"
    using begins_componentD by blast
  show ?thesis
  proof (cases "begins_component CHR ''m'' tail")
    case True
    then obtain m y t where "tail = m @ y # t" "decimal m" "lower_char y = CHR ''m''"
      using begins_componentD by blast
    then show ?thesis using h by blast
  next
    case False
    then show ?thesis using h by blast
  qed
next
  case False
  then show ?thesis using begins_componentD[of "CHR ''m''" rest] by blast
qed




section \<open>Properties of the metadata parser\<close>



lemma nameOfRaw_null: "nameOfRaw rt None = None" "nameOfRaw rt (Some JNull) = None"
  by (simp_all add: nameOfRaw_def)




section \<open>Order fields\<close>

lemma toIngredients_order:
  "map ing_order (toIngredients sys parsed) = [0 ..< length parsed]"
proof -
  have "map ing_order (toIngredients sys parsed) = map (\<lambda>(x, i). i) (zip parsed [0 ..< length parsed])"
    by (simp add: toIngredients_def comp_def case_prod_unfold)
  also have "\<dots> = map (\<lambda>i. i) [0 ..< length parsed]"
    by (rule map_indexed)
  finally show ?thesis by simp
qed

lemma parseIngredients_order:
  "map ing_order (fst (parseIngredients rt bp infer json units))
     = [0 ..< length (fst (parseIngredients rt bp infer json units))]"
  by (simp add: parseIngredients_def Let_def toIngredients_order) (simp add: toIngredients_def)

lemma buildRecipeDTO_orders:
  assumes "buildRecipeDTO sv input = Inr d" "safeParse sv = Inr"
  shows "map ing_order (recipeIngredients d) = [0 ..< length (recipeIngredients d)]
       \<and> map step_order (steps d) = [0 ..< length (steps d)]"
proof -
  have s: "map step_order (map (\<lambda>(s, i). \<lparr>step = s, step_systemUsed = y, step_order = i\<rparr>)
             (zip xs [0 ..< length xs])) = [0 ..< length xs]" for xs :: "string list" and y :: 'a
  proof -
    have "map step_order (map (\<lambda>(s, i). \<lparr>step = s, step_systemUsed = y, step_order = i\<rparr>)
             (zip xs [0 ..< length xs])) = map (\<lambda>(x, i). i) (zip xs [0 ..< length xs])"
      by (simp add: comp_def case_prod_unfold)
    also have "\<dots> = map (\<lambda>i. i) [0 ..< length xs]" by (rule map_indexed)
    finally show ?thesis by simp
  qed
  show ?thesis
    using assms s toIngredients_order
    by (auto simp: buildRecipeDTO_def Let_def toIngredients_def split: if_splits)
qed

text \<open>
  Claim C2 fails on the archive path: \<open>buildRecipeDTO\<close> numbers the steps from zero,
  where \<open>parseSteps\<close> numbers them from one. The Mela example of the specification
  gets the step orders 0 and 1.
\<close>

theorem buildRecipeDTO_steps_start_at_zero:
  "map_sum id (\<lambda>d. map (\<lambda>s. (step s, step_order s)) (steps d)) (buildRecipeDTO teaServices teaInput)
     = Inr [(''Boil water'', 0), (''Steep leaves'', 1)]"
  by code_simp

theorem parseSteps_steps_start_at_one:
  "map (\<lambda>s. (step s, step_order s))
     (parseSteps plainRuntime (Some (JArr [JStr ''Boil water'', JStr ''Steep leaves''])) ())
     = [(''Boil water'', 1), (''Steep leaves'', 2)]"
  by code_simp

section \<open>Properties of the orchestrator\<close>

lemma extractWithAI_usedAI:
  "(case extractWithAIPreference sv html recipeId url allergies False of
      Inl e \<Rightarrow> Inl e
    | Inr (Some r) \<Rightarrow> Inr \<lparr>recipe = r, usedAI = True\<rparr>
    | Inr None \<Rightarrow> Inl ''Cannot parse recipe.'') \<noteq> Inr \<lparr>recipe = d, usedAI = False\<rparr>"
  by (auto split: sum.splits option.splits)

lemma parseRecipeFromUrl_structured:
  assumes "structuredStage sv url html forceAI"
  shows "parseRecipeFromUrl sv url recipeId allergies forceAI =
     (case tryStructuredParsers sv url html recipeId of
        Inl e \<Rightarrow> Inl e
      | Inr (Some structured) \<Rightarrow> Inr \<lparr>recipe = structured, usedAI = False\<rparr>
      | Inr None \<Rightarrow>
          (case extractWithAIPreference sv html recipeId url allergies False of
             Inl e \<Rightarrow> Inl e
           | Inr (Some r) \<Rightarrow> Inr \<lparr>recipe = r, usedAI = True\<rparr>
           | Inr None \<Rightarrow> Inl ''Cannot parse recipe.''))"
  using assms
  by (simp add: structuredStage_def parseRecipeFromUrl_def tryHandleVideoUrl_def
      or_undefined_def nonempty_def)

text \<open>
  Claim C4. Outside AI-only mode, once the page has been fetched and accepted, and
  with both structured extractors answering, the orchestrator returns a recipe with
  \<open>usedAI = false\<close> exactly when that recipe is the JSON-LD extraction, or else the
  microdata extraction, and has at least one ingredient and at least one step. When
  neither extraction has both, the outcome is that of the AI extraction, which never
  has \<open>usedAI = false\<close>.
\<close>

theorem parseRecipeFromUrl_accepts_iff_valid:
  assumes stage: "structuredStage sv url html forceAI"
    and jsonLd: "tryExtractRecipeFromJsonLd sv url html recipeId = Inr j"
    and micro: "tryExtractRecipeFromMicrodata sv url html recipeId = Inr m"
  shows "(parseRecipeFromUrl sv url recipeId allergies forceAI = Inr \<lparr>recipe = d, usedAI = False\<rparr>
            \<longleftrightarrow> (j = Some d \<and> recipeIngredients d \<noteq> [] \<and> steps d \<noteq> [])
                \<or> (\<not> hasValidRecipeData j \<and> m = Some d
                     \<and> recipeIngredients d \<noteq> [] \<and> steps d \<noteq> []))
       \<and> (\<not> hasValidRecipeData j \<and> \<not> hasValidRecipeData m
            \<longrightarrow> parseRecipeFromUrl sv url recipeId allergies forceAI =
                (case extractWithAIPreference sv html recipeId url allergies False of
                   Inl e \<Rightarrow> Inl e
                 | Inr (Some r) \<Rightarrow> Inr \<lparr>recipe = r, usedAI = True\<rparr>
                 | Inr None \<Rightarrow> Inl ''Cannot parse recipe.''))"
proof -
  note p = parseRecipeFromUrl_structured[OF stage, of recipeId allergies]
  have t: "tryStructuredParsers sv url html recipeId =
     Inr (if hasValidRecipeData j then j else if hasValidRecipeData m then m else None)"
    using jsonLd micro by (simp add: tryStructuredParsers_def)
  have v: "hasValidRecipeData (Some x) \<longleftrightarrow> recipeIngredients x \<noteq> [] \<and> steps x \<noteq> []"
    for x :: "'a FullRecipeInsertDTO"
    by (simp add: hasValidRecipeData_def)
  have n: "\<not> hasValidRecipeData None" by (simp add: hasValidRecipeData_def)
  show ?thesis
  proof (cases "hasValidRecipeData j")
    case True
    then obtain x where x: "j = Some x" using n by (cases j) auto
    show ?thesis using True x v[of x] v[of d] by (auto simp: p t)
  next
    case False
    note fj = this
    show ?thesis
    proof (cases "hasValidRecipeData m")
      case True
      then obtain x where x: "m = Some x" using n by (cases m) auto
      have "j \<noteq> Some d \<or> \<not> (recipeIngredients d \<noteq> [] \<and> steps d \<noteq> [])"
        using fj v[of d] by auto
      then show ?thesis using True fj x v[of x] v[of d] by (auto simp: p t)
    next
      case False
      have 1: "j \<noteq> Some d \<or> \<not> (recipeIngredients d \<noteq> [] \<and> steps d \<noteq> [])"
        using fj v[of d] by auto
      have 2: "m \<noteq> Some d \<or> \<not> (recipeIngredients d \<noteq> [] \<and> steps d \<noteq> [])"
        using False v[of d] by auto
      show ?thesis
        using False fj 1 2 extractWithAI_usedAI[of sv html recipeId url allergies d]
        by (auto simp: p t)
    qed
  qed
qed

theorem parseRecipeFromUrl_example:
  "parseRecipeFromUrl
     (importServices (Some (soupDto [] ''Soup (JSON-LD)'')) (Some (soupDto [boil] ''Soup (microdata)'')))
     ''https://x/soup'' ''id1'' None None
     = Inr \<lparr>recipe = soupDto [boil] ''Soup (microdata)'', usedAI = False\<rparr>
   \<and> parseRecipeFromUrl (importServices (Some (soupDto [] ''Soup (JSON-LD)'')) None)
     ''https://x/soup'' ''id1'' None None
     = Inr \<lparr>recipe = soupDto [boil] ''Soup (AI)'', usedAI = True\<rparr>"
proof -
  let ?html = "''<h1>Soup</h1> Ingredients: water. Instructions: boil.''"
  let ?j = "Some (soupDto [] ''Soup (JSON-LD)'')"
  let ?m = "Some (soupDto [boil] ''Soup (microdata)'')"
  have likely: "isPageLikelyRecipe (importServices j m) ?html" for j m
    by code_simp
  have stage: "structuredStage (importServices j m) ''https://x/soup'' ?html None" for j m
    using likely[of j m] by (simp add: structuredStage_def importServices_def)
  have ex: "tryExtractRecipeFromJsonLd (importServices j m) u h r = Inr j"
    "tryExtractRecipeFromMicrodata (importServices j m) u h r = Inr m" for j m u h r
    by (simp_all add: importServices_def)
  have inv: "\<not> hasValidRecipeData ?j" "\<not> hasValidRecipeData (None :: unit FullRecipeInsertDTO option)"
    by (simp_all add: hasValidRecipeData_def soupDto_def)
  have val: "recipeIngredients (soupDto [boil] ''Soup (microdata)'') \<noteq> []"
    "steps (soupDto [boil] ''Soup (microdata)'') \<noteq> []"
    by (simp_all add: soupDto_def)
  have ai: "extractWithAIPreference (importServices j m) ?html ''id1'' ''https://x/soup'' None False
      = Inr (Some (soupDto [boil] ''Soup (AI)''))" for j m
    by (simp add: extractWithAIPreference_def tryExtractWithAI_def importServices_def)
  from parseRecipeFromUrl_accepts_iff_valid
    [OF stage ex(1) ex(2), of ?j ?m "''id1''" None "soupDto [boil] ''Soup (microdata)''"]
  have 1: "parseRecipeFromUrl (importServices ?j ?m) ''https://x/soup'' ''id1'' None None
      = Inr \<lparr>recipe = soupDto [boil] ''Soup (microdata)'', usedAI = False\<rparr>"
    using inv val by simp
  from parseRecipeFromUrl_accepts_iff_valid
    [OF stage ex(1) ex(2), of ?j None "''id1''" None "soupDto [boil] ''Soup (AI)''"]
  have 2: "parseRecipeFromUrl (importServices ?j None) ''https://x/soup'' ''id1'' None None
      = Inr \<lparr>recipe = soupDto [boil] ''Soup (AI)'', usedAI = True\<rparr>"
    using inv by (simp add: ai)
  from 1 2 show ?thesis by simp
qed

section \<open>Properties of the Paprika importer\<close>




section \<open>Properties of the video parser\<close>
















section \<open>Properties of the store-preference matcher\<close>

subsection \<open>Normalized names\<close>



lemma rtrim_spaces: "list_all is_space s \<Longrightarrow> rtrim s = []"
  by (simp add: rtrim_def list_all_iff)









lemma collapse_empty: "collapse_spaces s = [] \<longleftrightarrow> s = []"
  by (cases s) auto






subsection \<open>The order of preference\<close>






section \<open>Properties of the ingredient parser\<close>

subsection \<open>The search finds a token exactly when there is one\<close>

lemma first_some_SomeD: "first_some f xs = Some y \<Longrightarrow> \<exists>x \<in> set xs. f x = Some y"
  by (induction xs) (auto split: option.splits)


lemma last_char_append: "last_char (last_char p a) b = last_char p (a @ b)"
  by (simp add: last_char_def)


lemma not_digit_sep: "\<not> is_digit CHR ''.''" "\<not> is_digit CHR '',''"
  by (simp_all add: is_digit_def)

lemma number_token_split:
  "number_token q \<longleftrightarrow> (\<exists>i fr. q = i @ fr \<and> i \<noteq> [] \<and> list_all is_digit i \<and> fraction_part fr)"
proof
  assume n: "number_token q"
  let ?i = "takeWhile is_digit q" and ?r = "dropWhile is_digit q"
  have "q = ?i @ ?r" by simp
  moreover have "?i \<noteq> []" using n by (simp add: number_token_def Let_def)
  moreover have "list_all is_digit ?i" by (simp add: list_all_iff) (meson set_takeWhileD)
  moreover have "fraction_part ?r" using n by (simp add: number_token_def Let_def fraction_part_def)
  ultimately show "\<exists>i fr. q = i @ fr \<and> i \<noteq> [] \<and> list_all is_digit i \<and> fraction_part fr"
    by blast
next
  assume "\<exists>i fr. q = i @ fr \<and> i \<noteq> [] \<and> list_all is_digit i \<and> fraction_part fr"
  then obtain i fr where q: "q = i @ fr" "i \<noteq> []" "list_all is_digit i" "fraction_part fr"
    by blast
  have h: "fr = [] \<or> \<not> is_digit (hd fr)"
    using q(4) not_digit_sep by (auto simp: fraction_part_def split: list.splits)
  have t: "takeWhile is_digit q = i" "dropWhile is_digit q = fr"
    using q(1,3) h by (cases fr; simp add: list_all_iff takeWhile_append2 dropWhile_append2)+
  show "number_token q"
    using q(2,4) by (simp add: number_token_def Let_def t fraction_part_def)
qed

lemma take_le_takeWhile: "w \<le> length (takeWhile P xs) \<Longrightarrow> list_all P (take w xs)"
proof (induction xs arbitrary: w)
  case Nil
  then show ?case by simp
next
  case (Cons x xs)
  then show ?case by (cases w) (auto split: if_splits)
qed


subsection \<open>What a match is\<close>

lemma match_unit_sound:
  assumes "match_unit alts prev rest = Some m"
  shows "unit_token alts m \<and> (\<exists>post. rest = m @ post \<and> word_boundary (last_char prev m) post)"
proof -
  from first_some_SomeD[OF assms[unfolded match_unit_def]]
  obtain a where a: "a \<in> set alts" "length a \<le> length rest" "ci_eq (take (length a) rest) a"
    "word_boundary (last_char prev (take (length a) rest)) (drop (length a) rest)"
    "m = take (length a) rest"
    by (auto simp: Let_def split: if_splits)
  have "rest = m @ drop (length a) rest" using a(5) by simp
  moreover have "word_boundary (last_char prev m) (drop (length a) rest)" using a(4,5) by simp
  moreover have "unit_token alts m" using a(1,3,5) by (auto simp: unit_token_def list_ex_iff)
  ultimately show ?thesis by blast
qed


lemma match_spaces_sound:
  assumes "match_spaces alts prev rest = Some (ws, m)"
  shows "list_all is_space ws \<and> unit_token alts m
       \<and> (\<exists>post. rest = ws @ m @ post \<and> word_boundary (last_char prev (ws @ m)) post)"
proof -
  from first_some_SomeD[OF assms[unfolded match_spaces_def]]
  obtain w where w0: "w \<in> set (rev [0 ..< Suc (length (takeWhile is_space rest))])"
    "(case match_unit alts (last_char prev (take w rest)) (drop w rest) of
        Some u \<Rightarrow> Some (take w rest, u) | None \<Rightarrow> None) = Some (ws, m)"
    by blast
  have w: "w \<le> length (takeWhile is_space rest)"
    "match_unit alts (last_char prev (take w rest)) (drop w rest) = Some m" "ws = take w rest"
    using w0 by (auto simp del: upt_Suc split: option.splits)
  from match_unit_sound[OF w(2)] obtain post where
    p: "unit_token alts m" "drop w rest = m @ post"
       "word_boundary (last_char (last_char prev (take w rest)) m) post" by blast
  have "rest = ws @ m @ post" using w(3) p(2) by (metis append_take_drop_id)
  then show ?thesis
    using take_le_takeWhile[OF w(1)] w(3) p(1,3) by (auto simp: last_char_append)
qed


lemma last_char_Cons: "last_char prev (c # xs) = last_char (Some c) xs"
  by (simp add: last_char_def)

lemma match_fraction_sound:
  assumes "match_fraction alts prev rest = Some (fr, ws, m)"
  shows "fraction_part fr \<and> list_all is_space ws \<and> unit_token alts m
       \<and> (\<exists>post. rest = fr @ ws @ m @ post \<and> word_boundary (last_char prev (fr @ ws @ m)) post)"
proof -
  define present where "present =
        (case rest of
           [] \<Rightarrow> None
         | c # r \<Rightarrow>
             if c = CHR ''.'' \<or> c = CHR '','' then
               first_some
                 (\<lambda>k. case match_spaces alts (last_char (Some c) (take k r)) (drop k r) of
                        Some (ws, u) \<Rightarrow> Some (c # take k r, ws, u)
                      | None \<Rightarrow> None)
                 (rev [1 ..< Suc (length (takeWhile is_digit r))])
             else None)"
  have mf: "match_fraction alts prev rest =
      (case present of
         Some m \<Rightarrow> Some m
       | None \<Rightarrow> (case match_spaces alts prev rest of
                     Some (ws, u) \<Rightarrow> Some ([], ws, u) | None \<Rightarrow> None))"
    by (simp add: match_fraction_def present_def Let_def)
  consider
    (present) c r k where "rest = c # r" "c = CHR ''.'' \<or> c = CHR '',''"
      "1 \<le> k" "k \<le> length (takeWhile is_digit r)"
      "match_spaces alts (last_char (Some c) (take k r)) (drop k r) = Some (ws, m)"
      "fr = c # take k r"
    | (absent) "match_spaces alts prev rest = Some (ws, m)" "fr = []"
  proof (cases present)
    case None
    then have "match_spaces alts prev rest = Some (ws, m)" "fr = []"
      using assms mf by (auto split: option.splits)
    then show ?thesis by (rule absent)
  next
    case (Some x)
    then have x: "present = Some (fr, ws, m)" using assms mf by simp
    then obtain c r where cr: "rest = c # r" "c = CHR ''.'' \<or> c = CHR '',''"
      "first_some
         (\<lambda>k. case match_spaces alts (last_char (Some c) (take k r)) (drop k r) of
                Some (ws, u) \<Rightarrow> Some (c # take k r, ws, u)
              | None \<Rightarrow> None)
         (rev [1 ..< Suc (length (takeWhile is_digit r))]) = Some (fr, ws, m)"
      unfolding present_def by (cases rest) (auto split: if_splits)
    from first_some_SomeD[OF cr(3)]
    obtain k where k0: "k \<in> set (rev [1 ..< Suc (length (takeWhile is_digit r))])"
      "(case match_spaces alts (last_char (Some c) (take k r)) (drop k r) of
          Some (ws, u) \<Rightarrow> Some (c # take k r, ws, u)
        | None \<Rightarrow> None) = Some (fr, ws, m)"
      by blast
    have "1 \<le> k" "k \<le> length (takeWhile is_digit r)"
      "match_spaces alts (last_char (Some c) (take k r)) (drop k r) = Some (ws, m)"
      "fr = c # take k r"
      using k0 by (auto simp del: upt_Suc split: option.splits)
    with cr(1,2) show ?thesis by (rule present)
  qed
  then show ?thesis
  proof cases
    case present
    from match_spaces_sound[OF present(5)] obtain post where
      p: "list_all is_space ws" "unit_token alts m" "drop k r = ws @ m @ post"
         "word_boundary (last_char (last_char (Some c) (take k r)) (ws @ m)) post" by blast
    have d: "list_all is_digit (take k r)" by (rule take_le_takeWhile[OF present(4)])
    have ne: "take k r \<noteq> []" using present(3,4) by (cases r) auto
    have "rest = fr @ ws @ m @ post"
      using present(1,6) p(3) by (metis append_Cons append_take_drop_id)
    moreover have "last_char (last_char (Some c) (take k r)) (ws @ m) = last_char prev (fr @ ws @ m)"
      by (simp add: last_char_append present(6) last_char_Cons)
    ultimately show ?thesis
      using present(2,6) d ne p by (auto simp: fraction_part_def)
  next
    case absent
    from match_spaces_sound[OF absent(1)] show ?thesis
      using absent(2) by (auto simp: fraction_part_def)
  qed
qed



lemma match_here_sound:
  assumes "match_here alts prev rest = Some (q, m, whole)"
  shows "number_token q \<and> unit_token alts m \<and> word_boundary prev rest
       \<and> (\<exists>ws post. list_all is_space ws \<and> whole = q @ ws @ m \<and> rest = whole @ post
              \<and> word_boundary (last_char prev whole) post)"
proof -
  have wb: "word_boundary prev rest"
    using assms unfolding match_here_def by (auto split: if_splits)
  then have "first_some
          (\<lambda>n. case match_fraction alts (last_char prev (take n rest)) (drop n rest) of
                 Some (fr, ws, u) \<Rightarrow> Some (take n rest @ fr, u, take n rest @ fr @ ws @ u)
               | None \<Rightarrow> None)
          (rev [1 ..< Suc (length (takeWhile is_digit rest))]) = Some (q, m, whole)"
    using assms unfolding match_here_def by simp
  from first_some_SomeD[OF this]
  obtain n where n0: "n \<in> set (rev [1 ..< Suc (length (takeWhile is_digit rest))])"
    "(case match_fraction alts (last_char prev (take n rest)) (drop n rest) of
        Some (fr, ws, u) \<Rightarrow> Some (take n rest @ fr, u, take n rest @ fr @ ws @ u)
      | None \<Rightarrow> None) = Some (q, m, whole)"
    by blast
  then obtain fr ws where n: "1 \<le> n" "n \<le> length (takeWhile is_digit rest)"
    "match_fraction alts (last_char prev (take n rest)) (drop n rest) = Some (fr, ws, m)"
    "q = take n rest @ fr" "whole = take n rest @ fr @ ws @ m"
    by (auto simp del: upt_Suc split: option.splits)
  from match_fraction_sound[OF n(3)] obtain post where
    p: "fraction_part fr" "list_all is_space ws" "unit_token alts m"
       "drop n rest = fr @ ws @ m @ post"
       "word_boundary (last_char (last_char prev (take n rest)) (fr @ ws @ m)) post" by blast
  have d: "list_all is_digit (take n rest)" by (rule take_le_takeWhile[OF n(2)])
  have ne: "take n rest \<noteq> []" using n(1,2) by (cases rest) auto
  have nt: "number_token q"
    unfolding number_token_split using n(4) d ne p(1) by blast
  have "rest = take n rest @ drop n rest" by simp
  also have "\<dots> = take n rest @ fr @ ws @ m @ post" by (simp only: p(4))
  also have "\<dots> = whole @ post" by (simp add: n(5))
  finally have r: "rest = whole @ post" .
  have b: "word_boundary (last_char prev whole) post"
    using p(5) by (simp add: last_char_append n(5))
  have w: "whole = q @ ws @ m" using n(4,5) by simp
  show ?thesis using nt p(2,3) wb w r b by blast
qed


lemma regex_search_sound:
  assumes "regex_search alts prev s = Some (q, m, whole)"
  shows "number_token q \<and> unit_token alts m
       \<and> (\<exists>pre ws post. list_all is_space ws \<and> whole = q @ ws @ m \<and> s = pre @ whole @ post
              \<and> word_boundary (last_char prev pre) (whole @ post)
              \<and> word_boundary (last_char prev (pre @ whole)) post)"
  using assms
proof (induction s arbitrary: prev)
  case Nil
  then have "match_here alts prev [] = Some (q, m, whole)" by simp
  from match_here_sound[OF this] show ?case
    by (auto intro!: exI[of _ "[]"] simp: last_char_def)
next
  case (Cons c cs)
  show ?case
  proof (cases "match_here alts prev (c # cs)")
    case (Some x)
    then have "match_here alts prev (c # cs) = Some (q, m, whole)" using Cons.prems by simp
    from match_here_sound[OF this] obtain ws post where
      h: "number_token q" "unit_token alts m" "word_boundary prev (c # cs)"
      "list_all is_space ws" "whole = q @ ws @ m" "c # cs = whole @ post"
      "word_boundary (last_char prev whole) post" by blast
    have "c # cs = [] @ whole @ post" using h(6) by simp
    moreover have "word_boundary (last_char prev []) (whole @ post)"
      using h(3,6) by (simp add: last_char_def)
    moreover have "word_boundary (last_char prev ([] @ whole)) post" using h(7) by simp
    ultimately show ?thesis using h(1,2,4,5) by blast
  next
    case None
    then have "regex_search alts (Some c) cs = Some (q, m, whole)" using Cons.prems by simp
    from Cons.IH[OF this] obtain pre ws post where
      h: "number_token q" "unit_token alts m" "list_all is_space ws" "whole = q @ ws @ m"
      "cs = pre @ whole @ post" "word_boundary (last_char (Some c) pre) (whole @ post)"
      "word_boundary (last_char (Some c) (pre @ whole)) post" by blast
    have "c # cs = (c # pre) @ whole @ post" using h(5) by simp
    moreover have "word_boundary (last_char prev (c # pre)) (whole @ post)"
      using h(6) by (simp add: last_char_Cons)
    moreover have "word_boundary (last_char prev ((c # pre) @ whole)) post"
      using h(7) by (simp add: last_char_Cons)
    ultimately show ?thesis using h(1,2,3,4) by blast
  qed
qed


subsection \<open>Recovery of a unit in the middle of the line\<close>

lemma decimalCommas_no_digit: "\<not> list_ex is_digit s \<Longrightarrow> decimalCommas s = s"
  by (induction s rule: decimalCommas.induct) auto










end
